theory Spec2Isabelle
  imports Main "HOL-Library.Sublist" "HOL-Library.Char_ord" "HOL-Library.List_Lexorder"
    "HOL-Library.AList"
begin

section \<open>Python strings\<close>

text \<open>
  Texts are Python 2 \<^verbatim>\<open>unicode\<close> objects read from JSON; they are modelled as
  \<open>string\<close>, one \<open>char\<close> per code point, which covers the code points below 256.
  Comparison of strings is lexicographic by code point, which is the order of
  \<open>List_Lexorder\<close> over \<open>Char_ord\<close>.
\<close>

text \<open>
  \<^verbatim>\<open>unicode.strip()\<close> removes the characters that \<^verbatim>\<open>unicode.isspace()\<close> accepts; below
  256 these are U+0009 to U+000D, U+001C to U+0020, U+0085 and U+00A0.
\<close>

definition is_space :: "char \<Rightarrow> bool" where
  "is_space c = (of_char c \<in> {9::nat, 10, 11, 12, 13, 28, 29, 30, 31, 32, 133, 160})"

definition strip :: "string \<Rightarrow> string" where
  "strip s = rev (dropWhile is_space (rev (dropWhile is_space s)))"

text \<open>\<^verbatim>\<open>s.rstrip('/')\<close>.\<close>

definition rstrip_slash :: "string \<Rightarrow> string" where
  "rstrip_slash s = rev (dropWhile (\<lambda>c. c = CHR ''/'') (rev s))"

text \<open>The decimal digits \<^verbatim>\<open>0\<close> to \<^verbatim>\<open>9\<close>; this is also \<^verbatim>\<open>\d\<close> without the UNICODE flag.\<close>

definition is_digit :: "char \<Rightarrow> bool" where
  "is_digit c = (CHR ''0'' \<le> c \<and> c \<le> CHR ''9'')"

text \<open>
  \<^verbatim>\<open>unicode.isdigit()\<close>: the text is not empty and every character is a digit of Unicode;
  below 256 these are the decimal digits and the superscripts U+00B2, U+00B3 and U+00B9.
\<close>

definition is_unicode_digit :: "char \<Rightarrow> bool" where
  "is_unicode_digit c = (is_digit c \<or> of_char c \<in> {178::nat, 179, 185})"

definition isdigit :: "string \<Rightarrow> bool" where
  "isdigit s = (s \<noteq> [] \<and> list_all is_unicode_digit s)"

datatype py_error = KeyError | IndexError | ValueError | ReError

text \<open>
  \<^verbatim>\<open>int(s)\<close> for a text that \<^verbatim>\<open>isdigit\<close> accepts: the value of the decimal digits, or
  \<^verbatim>\<open>ValueError\<close> when a superscript digit is among them.
\<close>

definition int_of_digits :: "string \<Rightarrow> int" where
  "int_of_digits s = foldl (\<lambda>n c. 10 * n + (int (of_char c) - 48)) 0 s"

definition py_int :: "string \<Rightarrow> py_error + int" where
  "py_int s = (if list_all is_digit s then Inr (int_of_digits s) else Inl ValueError)"

section \<open>Issue records and the sequence filler\<close>

text \<open>
  An entry of \<^verbatim>\<open>issues['issues']\<close> is a JSON object with the keys \<^verbatim>\<open>id\<close>,
  \<^verbatim>\<open>issue\<close> and \<^verbatim>\<open>comments\<close>. The inner \<^verbatim>\<open>issue\<close> object carries the seven keys
  that \<^verbatim>\<open>insert_missing_issue\<close> writes; whatever further keys an exported issue or
  comment has are kept in \<open>extra\<close>, an association list over a value type \<open>'v\<close>. The
  key \<^verbatim>\<open>content\<close> is the field \<open>issue_content\<close>, the key \<^verbatim>\<open>id\<close> the field \<open>ident\<close>.
\<close>

record 'v issue_data =
  status :: string
  title :: string
  created_on :: string
  issue_content :: string
  comment_count :: int
  local_id :: int
  utc_created_on :: string
  issue_extra :: "(string \<times> 'v) list"

record 'v comment =
  body :: string
  comment_extra :: "(string \<times> 'v) list"

record 'v entry =
  ident :: int
  issue :: "'v issue_data"
  comments :: "'v comment list"

text \<open>The dictionary literal of \<^verbatim>\<open>insert_missing_issue\<close>; \<open>d\<close> is \<^verbatim>\<open>d.isoformat()\<close>.\<close>

definition tombstone :: "string \<Rightarrow> nat \<Rightarrow> 'v entry" where
  "tombstone d idx =
     \<lparr> ident = int idx + 1,
       issue = \<lparr> status = ''invalid'', title = ''(deleted)'', created_on = d,
                 issue_content = ''(deleted)'' @ [CHR 0x0D, CHR 0x0A], comment_count = 0,
                 local_id = int idx + 1, utc_created_on = d, issue_extra = [] \<rparr>,
       comments = [] \<rparr>"

text \<open>\<^verbatim>\<open>list.insert(idx, x)\<close> for \<open>0 \<le> idx\<close>.\<close>

definition list_insert :: "nat \<Rightarrow> 'a \<Rightarrow> 'a list \<Rightarrow> 'a list" where
  "list_insert idx x xs = take idx xs @ x # drop idx xs"

text \<open>
  The body of \<^verbatim>\<open>for idx in range(len(issues))\<close>: the range is computed once, before
  the first insertion, so the loop visits the indices of the list as it was on entry.
  \<open>now idx\<close> is the ISO timestamp that \<^verbatim>\<open>datetime.datetime.now()\<close> gives in the
  iteration for \<open>idx\<close>. \<^verbatim>\<open>issues[idx]\<close> raises IndexError out of range.
\<close>

fun fill_loop :: "(nat \<Rightarrow> string) \<Rightarrow> nat list \<Rightarrow> 'v entry list \<Rightarrow> py_error + 'v entry list" where
  "fill_loop now [] issues = Inr issues"
| "fill_loop now (idx # rest) issues =
     (if idx < length issues
      then (if ident (issues ! idx) \<noteq> int idx + 1
            then fill_loop now rest (list_insert idx (tombstone (now idx) idx) issues)
            else fill_loop now rest issues)
      else Inl IndexError)"

text \<open>
  \<^verbatim>\<open>while 1: try: <for loop> except RetryException: pass else: break\<close>. Nothing
  raises \<^verbatim>\<open>RetryException\<close>, so the \<^verbatim>\<open>else\<close> branch breaks after the first pass
  of the for loop.
\<close>

definition insert_missing_issue :: "(nat \<Rightarrow> string) \<Rightarrow> 'v entry list \<Rightarrow> py_error + 'v entry list" where
  "insert_missing_issue now issues = fill_loop now [0..<length issues] issues"

text \<open>An issue that carries only an identifier, for the examples.\<close>

definition plain_issue :: "int \<Rightarrow> 'v entry" where
  "plain_issue n =
     \<lparr> ident = n,
       issue = \<lparr> status = ''new'', title = ''t'', created_on = ''c'', issue_content = ''x'',
                 comment_count = 0, local_id = n, utc_created_on = ''c'', issue_extra = [] \<rparr>,
       comments = [] \<rparr>"

section \<open>The commit index: \<^verbatim>\<open>BbToGh.__init__\<close> and resolution\<close>

text \<open>
  A record of either log. \<^verbatim>\<open>dateutil.parser.parse\<close> is a parameter \<open>parse\<close> into a
  type \<open>'d\<close> of time stamps; \<open>None\<close> stands for the \<^verbatim>\<open>ValueError\<close> it raises on a
  string it cannot read. Python dictionaries are association lists with
  \<^const>\<open>map_of\<close> for lookup and \<^const>\<open>AList.update\<close> for assignment. Calls of the
  logger leave no trace in the data and are left out.
\<close>

record commit_log =
  node :: string
  date :: string
  desc :: string

record hg_log = commit_log +
  revnum :: int

record 'd bb_to_gh =
  bb_url :: string
  gh_url :: string
  hg_to_git :: "(string \<times> string option) list"
  hg_dates :: "(string \<times> 'd) list"
  hg_revnum_to_hg_node :: "(int \<times> string) list"
  sorted_nodes :: "string list"

type_synonym 'd key_to_hg = "(('d \<times> string) \<times> string list) list"

text \<open>\<^verbatim>\<open>d.setdefault(key, []).append(node)\<close>.\<close>

definition setdefault_append :: "'k \<Rightarrow> 'a \<Rightarrow> ('k \<times> 'a list) list \<Rightarrow> ('k \<times> 'a list) list" where
  "setdefault_append k x d =
     (case map_of d k of None \<Rightarrow> AList.update k [x] d | Some xs \<Rightarrow> AList.update k (xs @ [x]) d)"

text \<open>The first loop of \<^verbatim>\<open>__init__\<close>, over \<^verbatim>\<open>hg_logs\<close>.\<close>

fun hg_pass :: "(string \<Rightarrow> 'd option) \<Rightarrow> hg_log list \<Rightarrow> 'd bb_to_gh \<times> 'd key_to_hg
    \<Rightarrow> py_error + 'd bb_to_gh \<times> 'd key_to_hg" where
  "hg_pass parse [] st = Inr st"
| "hg_pass parse (l # ls) (self, k2h) =
     (case parse (date l) of
        None \<Rightarrow> Inl ValueError
      | Some d \<Rightarrow>
          hg_pass parse ls
            (self\<lparr> hg_dates := AList.update (strip (node l)) d (hg_dates self),
                   hg_to_git := AList.update (strip (node l)) None (hg_to_git self),
                   hg_revnum_to_hg_node :=
                     AList.update (revnum l) (strip (node l)) (hg_revnum_to_hg_node self) \<rparr>,
             setdefault_append (d, strip (desc l)) (strip (node l)) k2h))"

text \<open>\<^verbatim>\<open>for node in key_to_hg[key]: self.hg_to_git[node] = git_log['node'].strip()\<close>.\<close>

fun assign_all :: "string list \<Rightarrow> string \<Rightarrow> (string \<times> string option) list
    \<Rightarrow> (string \<times> string option) list" where
  "assign_all [] g m = m"
| "assign_all (n # ns) g m = assign_all ns g (AList.update n (Some g) m)"

text \<open>The second loop, over \<^verbatim>\<open>git_logs\<close>.\<close>

fun git_pass :: "(string \<Rightarrow> 'd option) \<Rightarrow> 'd key_to_hg \<Rightarrow> commit_log list
    \<Rightarrow> (string \<times> string option) list \<Rightarrow> py_error + (string \<times> string option) list" where
  "git_pass parse k2h [] m = Inr m"
| "git_pass parse k2h (g # gs) m =
     (case parse (date g) of
        None \<Rightarrow> Inl ValueError
      | Some d \<Rightarrow>
          (case map_of k2h (d, strip (desc g)) of
             None \<Rightarrow> git_pass parse k2h gs m
           | Some ns \<Rightarrow> git_pass parse k2h gs (assign_all ns (strip (node g)) m)))"

definition bb_to_gh_init :: "(string \<Rightarrow> 'd option) \<Rightarrow> hg_log list \<Rightarrow> commit_log list
    \<Rightarrow> string \<Rightarrow> string \<Rightarrow> py_error + 'd bb_to_gh" where
  "bb_to_gh_init parse hg_logs git_logs bb gh =
     (case hg_pass parse hg_logs
             (\<lparr> bb_url = rstrip_slash bb, gh_url = rstrip_slash gh, hg_to_git = [],
                hg_dates = [], hg_revnum_to_hg_node = [], sorted_nodes = [] \<rparr>, []) of
        Inl e \<Rightarrow> Inl e
      | Inr (self, k2h) \<Rightarrow>
          (case git_pass parse k2h git_logs (hg_to_git self) of
             Inl e \<Rightarrow> Inl e
           | Inr m \<Rightarrow> Inr (self\<lparr> hg_to_git := m, sorted_nodes := sort (map fst m) \<rparr>)))"

text \<open>
  \<^verbatim>\<open>bisect.bisect_left(a, x)\<close>, the loop of the standard library:
  \<^verbatim>\<open>while lo < hi: mid = (lo+hi)//2; if a[mid] < x: lo = mid+1 else: hi = mid\<close>.
\<close>

function bisect_loop :: "string list \<Rightarrow> string \<Rightarrow> nat \<Rightarrow> nat \<Rightarrow> nat" where
  "bisect_loop a x lo hi =
     (if lo < hi
      then (if a ! ((lo + hi) div 2) < x
            then bisect_loop a x ((lo + hi) div 2 + 1) hi
            else bisect_loop a x lo ((lo + hi) div 2))
      else lo)"
  by pat_completeness auto
termination
  by (relation "measure (\<lambda>(a, x, lo, hi). hi - lo)") auto

definition bisect_left :: "string list \<Rightarrow> string \<Rightarrow> nat" where
  "bisect_left a x = bisect_loop a x 0 (length a)"

definition find_hg_node :: "'d bb_to_gh \<Rightarrow> string \<Rightarrow> string option" where
  "find_hg_node self hg_node =
     (let idx = bisect_left (sorted_nodes self) hg_node in
      if idx = length (sorted_nodes self) then None
      else if prefix hg_node (sorted_nodes self ! idx) then Some (sorted_nodes self ! idx)
      else None)"

text \<open>
  The tail of \<^verbatim>\<open>hgnode_to_githash\<close> from \<^verbatim>\<open>git_hash = self.hg_to_git[full_node]\<close> on.
  \<open>full_node\<close> is \<open>None\<close> when \<^verbatim>\<open>find_hg_node\<close> found nothing; \<^verbatim>\<open>None\<close> is never a
  key of the dictionary, so the subscript raises \<^verbatim>\<open>KeyError\<close>.
\<close>

definition lookup_git :: "'d bb_to_gh \<Rightarrow> string option \<Rightarrow> py_error + string option" where
  "lookup_git self full_node =
     (case full_node of
        None \<Rightarrow> Inl KeyError
      | Some n \<Rightarrow>
          (case map_of (hg_to_git self) n of
             None \<Rightarrow> Inl KeyError
           | Some None \<Rightarrow>
               (case map_of (hg_dates self) n of None \<Rightarrow> Inl KeyError | Some d \<Rightarrow> Inr None)
           | Some (Some git_hash) \<Rightarrow> Inr (Some git_hash)))"

definition hgnode_to_githash :: "'d bb_to_gh \<Rightarrow> string \<Rightarrow> py_error + string option" where
  "hgnode_to_githash self hg_node =
     (if hg_node = ''tip'' then Inr None
      else
        (case find_hg_node self hg_node of
           Some n \<Rightarrow> lookup_git self (Some n)
         | None \<Rightarrow>
             if isdigit hg_node
             then (case py_int hg_node of
                     Inl e \<Rightarrow> Inl e
                   | Inr k \<Rightarrow>
                       (case map_of (hg_revnum_to_hg_node self) k of
                          None \<Rightarrow> Inl KeyError
                        | Some hg_node' \<Rightarrow>
                            (case find_hg_node self hg_node' of
                               None \<Rightarrow> Inr None
                             | Some n \<Rightarrow> lookup_git self (Some n))))
             else lookup_git self None))"

text \<open>
  The match key of a log record, as both loops of \<^verbatim>\<open>__init__\<close> compute it:
  \<^verbatim>\<open>(dateutil.parser.parse(log['date']), log['desc'].strip())\<close>; \<open>None\<close> when the date
  does not parse.
\<close>

definition match_key :: "(string \<Rightarrow> 'd option) \<Rightarrow> 'a commit_log_scheme \<Rightarrow> ('d \<times> string) option" where
  "match_key parse l = (case parse (date l) of None \<Rightarrow> None | Some d \<Rightarrow> Some (d, strip (desc l)))"

text \<open>The nodes a dictionary of lists holds under a key, and the test whether a record of
  the git log assigns to a node; both are used to state the invariants of the two loops.\<close>

definition grp :: "('k \<times> 'a list) list \<Rightarrow> 'k \<Rightarrow> 'a set" where
  "grp d k = (case map_of d k of None \<Rightarrow> {} | Some xs \<Rightarrow> set xs)"

definition hits :: "(string \<Rightarrow> 'd option) \<Rightarrow> 'd key_to_hg \<Rightarrow> string \<Rightarrow> commit_log \<Rightarrow> bool" where
  "hits parse k2h n g = (case match_key parse g of None \<Rightarrow> False | Some key \<Rightarrow> n \<in> grp k2h key)"

text \<open>
  Examples. \<open>constructed\<close> is \<^verbatim>\<open>BbToGh(hg_logs, git_logs, bb_url, gh_url)\<close> for the
  repository \<^verbatim>\<open>u/r\<close>, with dates read as they stand; \<open>mapped\<close> reads
  \<^verbatim>\<open>hg_to_git\<close> of the constructed object and \<open>resolve_in\<close> calls
  \<^verbatim>\<open>hgnode_to_githash\<close> on it.
\<close>

definition constructed :: "hg_log list \<Rightarrow> commit_log list \<Rightarrow> py_error + string bb_to_gh" where
  "constructed hg_logs git_logs =
     bb_to_gh_init Some hg_logs git_logs ''https://bitbucket.org/u/r'' ''https://github.com/u/r''"

definition mapped :: "py_error + 'd bb_to_gh \<Rightarrow> string \<Rightarrow> py_error + string option option" where
  "mapped r n = (case r of Inl e \<Rightarrow> Inl e | Inr self \<Rightarrow> Inr (map_of (hg_to_git self) n))"

definition resolve_in :: "py_error + 'd bb_to_gh \<Rightarrow> string \<Rightarrow> py_error + string option" where
  "resolve_in r ref = (case r of Inl e \<Rightarrow> Inl e | Inr self \<Rightarrow> hgnode_to_githash self ref)"

definition one_hg :: "hg_log list" where
  "one_hg = [\<lparr> node = ''0f18c81b53fc'', date = ''2014-01-01'', desc = ''fix'', revnum = 0 \<rparr>]"

definition one_git :: "commit_log list" where
  "one_git = [\<lparr> node = ''20fa9c09b23e'', date = ''2014-01-01'', desc = ''fix'' \<rparr>]"

text \<open>An index of two commits whose identifiers share the prefix \<^verbatim>\<open>0f\<close>.\<close>

definition two_hg :: "hg_log list" where
  "two_hg = [\<lparr> node = ''0f18c81b53fc'', date = ''2014-01-01'', desc = ''fix'', revnum = 0 \<rparr>,
             \<lparr> node = ''0f2a6b1c9d3e'', date = ''2014-01-02'', desc = ''more'', revnum = 1 \<rparr>]"

definition two_git :: "commit_log list" where
  "two_git = [\<lparr> node = ''20fa9c09b23e'', date = ''2014-01-01'', desc = ''fix'' \<rparr>,
              \<lparr> node = ''77aa01bb02cc'', date = ''2014-01-02'', desc = ''more'' \<rparr>]"

definition twin_hg :: "hg_log list" where
  "twin_hg = [\<lparr> node = ''aa'', date = ''2014-01-01'', desc = ''one'', revnum = 0 \<rparr>,
              \<lparr> node = ''bb'', date = ''2014-01-01'', desc = '' one'', revnum = 1 \<rparr>]"

definition twin_git :: "commit_log list" where
  "twin_git = [\<lparr> node = ''c1'', date = ''2014-01-01'', desc = ''one'' \<rparr>,
               \<lparr> node = ''c2'', date = ''2014-01-01'', desc = ''one '' \<rparr>]"

section \<open>Text primitives: \<^verbatim>\<open>str.replace\<close>, \<^verbatim>\<open>re.findall\<close>, \<^verbatim>\<open>re.sub\<close>\<close>

text \<open>
  \<^verbatim>\<open>s.replace(old, new)\<close> for a non-empty \<open>old\<close>: the occurrences of \<open>old\<close> are taken
  from left to right without overlap.
\<close>

function replace_scan :: "string \<Rightarrow> string \<Rightarrow> string \<Rightarrow> string" where
  "replace_scan old new s =
     (if old = [] then s
      else if prefix old s then new @ replace_scan old new (drop (length old) s)
      else (case s of [] \<Rightarrow> [] | c # cs \<Rightarrow> c # replace_scan old new cs))"
  by pat_completeness auto
termination
  by (relation "measure (\<lambda>(old, new, s). length s)") (auto simp: prefix_def)

text \<open>With an empty \<open>old\<close>, Python puts \<open>new\<close> before every character and at the end.\<close>

definition py_replace :: "string \<Rightarrow> string \<Rightarrow> string \<Rightarrow> string" where
  "py_replace old new s =
     (if old = [] then new @ concat (map (\<lambda>c. c # new) s) else replace_scan old new s)"

text \<open>
  A compiled pattern is a function that tries the pattern at one position: it gets the
  character before the position (\<open>None\<close> at the start of the text) and the text from the
  position on, and answers with the groups and the length of the match. The patterns of
  this program never match the empty string. \<open>scan\<close> is the search loop of
  \<^verbatim>\<open>re.findall\<close>: after a match of length \<open>n\<close> the next attempt is \<open>n\<close> characters on,
  after a failure one character on.
\<close>

type_synonym 'g pattern = "char option \<Rightarrow> string \<Rightarrow> ('g \<times> nat) option"

fun scan :: "'g pattern \<Rightarrow> nat \<Rightarrow> char option \<Rightarrow> string \<Rightarrow> 'g list" where
  "scan m k prev [] = []"
| "scan m 0 prev (c # cs) =
     (case m prev (c # cs) of
        None \<Rightarrow> scan m 0 (Some c) cs
      | Some (g, n) \<Rightarrow> g # scan m (n - 1) (Some c) cs)"
| "scan m (Suc k) prev (c # cs) = scan m k (Some c) cs"

definition findall :: "'g pattern \<Rightarrow> string \<Rightarrow> 'g list" where
  "findall m s = scan m 0 None s"

text \<open>
  \<^verbatim>\<open>re.sub\<close> with a compiled replacement \<open>r\<close>: the same search; each match is replaced
  by \<open>r\<close> of its groups, from left to right, and the first match whose expansion raises
  ends the call with that exception.
\<close>

fun sub_scan :: "'g pattern \<Rightarrow> ('g \<Rightarrow> py_error + string) \<Rightarrow> nat \<Rightarrow> char option \<Rightarrow> string
    \<Rightarrow> py_error + string" where
  "sub_scan m r k prev [] = Inr []"
| "sub_scan m r 0 prev (c # cs) =
     (case m prev (c # cs) of
        None \<Rightarrow> map_sum id (Cons c) (sub_scan m r 0 (Some c) cs)
      | Some (g, n) \<Rightarrow>
          (case r g of
             Inl e \<Rightarrow> Inl e
           | Inr x \<Rightarrow> map_sum id (append x) (sub_scan m r (n - 1) (Some c) cs)))"
| "sub_scan m r (Suc k) prev (c # cs) = sub_scan m r k (Some c) cs"

definition re_sub :: "'g pattern \<Rightarrow> ('g \<Rightarrow> py_error + string) \<Rightarrow> string \<Rightarrow> py_error + string" where
  "re_sub m r s = sub_scan m r 0 None s"

subsection \<open>Character classes\<close>

definition is_alpha :: "char \<Rightarrow> bool" where
  "is_alpha c = ((CHR ''a'' \<le> c \<and> c \<le> CHR ''z'') \<or> (CHR ''A'' \<le> c \<and> c \<le> CHR ''Z''))"

text \<open>\<^verbatim>\<open>[a-zA-Z0-9]\<close>.\<close>

definition is_alnum :: "char \<Rightarrow> bool" where
  "is_alnum c = (is_alpha c \<or> is_digit c)"

text \<open>
  The patterns are compiled without the LOCALE and UNICODE flags, so \<^verbatim>\<open>\w\<close> is
  \<^verbatim>\<open>[a-zA-Z0-9_]\<close> on every text.
\<close>

definition is_word :: "char \<Rightarrow> bool" where
  "is_word c = (is_alnum c \<or> c = CHR ''_'')"

text \<open>\<^verbatim>\<open>[0-9a-f]\<close>.\<close>

definition is_hex :: "char \<Rightarrow> bool" where
  "is_hex c = (is_digit c \<or> (CHR ''a'' \<le> c \<and> c \<le> CHR ''f''))"

text \<open>\<^verbatim>\<open>[\w\d.,_-]\<close>, the slug of an issue link.\<close>

definition is_slug :: "char \<Rightarrow> bool" where
  "is_slug c = (is_word c \<or> c = CHR ''.'' \<or> c = CHR '','' \<or> c = CHR ''-'')"

text \<open>\<^verbatim>\<open>[\w\d/?=#.,_-]\<close>, the rest of a source link.\<close>

definition is_src_rest :: "char \<Rightarrow> bool" where
  "is_src_rest c = (is_slug c \<or> c = CHR ''/'' \<or> c = CHR ''?'' \<or> c = CHR ''='' \<or> c = CHR ''#'')"

text \<open>\<^verbatim>\<open>[a-zA-Z0-9_-]\<close>, the tail of a user name.\<close>

definition is_user_char :: "char \<Rightarrow> bool" where
  "is_user_char c = (is_word c \<or> c = CHR ''-'')"

text \<open>
  \<^verbatim>\<open>\b\<close> between the character \<open>a\<close> and the text \<open>right\<close>: exactly one side is a word
  character; the end of the text counts as a non-word character. \<open>word_before\<close> is the
  same test for the left side of a position.
\<close>

definition word_ahead :: "string \<Rightarrow> bool" where
  "word_ahead right = (case right of [] \<Rightarrow> False | c # cs \<Rightarrow> is_word c)"

definition word_before :: "char option \<Rightarrow> bool" where
  "word_before prev = (case prev of None \<Rightarrow> False | Some c \<Rightarrow> is_word c)"

text \<open>
  The base URL is pasted into the patterns unescaped, so its dots match any character
  but a newline. \<open>re_base pat s\<close> matches \<open>pat\<close> at the start of \<open>s\<close> and returns what
  follows. Every other character of the URL is taken literally: the model covers base
  URLs without the metacharacters \<^verbatim>\<open>\ ^ $ * + ? { } [ ] | ( )\<close>.
\<close>

fun re_base :: "string \<Rightarrow> string \<Rightarrow> string option" where
  "re_base [] s = Some s"
| "re_base (p # ps) [] = None"
| "re_base (p # ps) (c # cs) =
     (if (p = CHR ''.'' \<and> c \<noteq> CHR 0x0A) \<or> (p \<noteq> CHR ''.'' \<and> p = c) then re_base ps cs else None)"

text \<open>A literal at the start of the text; the rest of the text on success.\<close>

definition literal :: "string \<Rightarrow> string \<Rightarrow> string option" where
  "literal p s = (if prefix p s then Some (drop (length p) s) else None)"

section \<open>The rewrite rules of \<^verbatim>\<open>BbToGh\<close>\<close>

text \<open>\<^verbatim>\<open>'%s' % git_hash\<close>.\<close>

definition show_hash :: "string option \<Rightarrow> string" where
  "show_hash h = (case h of None \<Rightarrow> ''None'' | Some g \<Rightarrow> g)"

subsection \<open>\<^verbatim>\<open>normalize_bb_url\<close>\<close>

definition normalize_bb_url :: "'d bb_to_gh \<Rightarrow> string \<Rightarrow> string" where
  "normalize_bb_url self content =
     py_replace (bb_url self @ ''/changeset/'') (bb_url self @ ''/commits/'')
       (py_replace ''http://bitbucket.org/'' ''https://bitbucket.org/''
          (py_replace ''http://www.bitbucket.org/'' ''https://bitbucket.org/'' content))"

subsection \<open>\<^verbatim>\<open>convert_cset_marker\<close>\<close>

text \<open>
  The pattern is two \<open><\<close>, then \<^verbatim>\<open>(cset|changeset)\<close>, a blank, \<^verbatim>\<open>([^>]+)\<close> and two
  \<open>>\<close>. The greedy second group takes every character up to the next \<open>>\<close>; giving
  characters back cannot help, since the pattern goes on with \<open>>\<close>. The groups are the
  marker word and the node text.
\<close>

definition cset_marker_pattern :: "(string \<times> string) pattern" where
  "cset_marker_pattern prev s =
     (case literal ''<<'' s of
        None \<Rightarrow> None
      | Some s1 \<Rightarrow>
          (case (case literal ''cset'' s1 of
                   Some s2 \<Rightarrow> Some (''cset'', s2)
                 | None \<Rightarrow> map_option (Pair ''changeset'') (literal ''changeset'' s1)) of
             None \<Rightarrow> None
           | Some (marker, s2) \<Rightarrow>
               (case literal '' '' s2 of
                  None \<Rightarrow> None
                | Some s3 \<Rightarrow>
                    (let hg_node = takeWhile (\<lambda>c. c \<noteq> CHR ''>'') s3 in
                     if hg_node = [] then None
                     else if prefix ''>>'' (dropWhile (\<lambda>c. c \<noteq> CHR ''>'') s3)
                     then Some ((marker, hg_node), 2 + length marker + 1 + length hg_node + 2)
                     else None))))"

text \<open>\<^verbatim>\<open>hg_node.split(':')[1]\<close> for a text with a colon: the second field.\<close>

definition second_field :: "string \<Rightarrow> string" where
  "second_field s = takeWhile (\<lambda>c. c \<noteq> CHR '':'') (drop 1 (dropWhile (\<lambda>c. c \<noteq> CHR '':'') s))"

text \<open>The replacement is the raw string of backslash-escaped brackets around \<^verbatim>\<open>cset %s\<close>.\<close>

definition escaped_marker :: "string option \<Rightarrow> string" where
  "escaped_marker git_hash =
     [CHR 0x5C, CHR ''<'', CHR 0x5C, CHR ''<''] @ ''cset '' @ show_hash git_hash @
     [CHR 0x5C, CHR ''>'', CHR 0x5C, CHR ''>'']"

fun cset_marker_loop :: "'d bb_to_gh \<Rightarrow> (string \<times> string) list \<Rightarrow> string \<Rightarrow> py_error + string" where
  "cset_marker_loop self [] content = Inr content"
| "cset_marker_loop self ((marker, hg_node) # captures) content =
     (case hgnode_to_githash self
             (if CHR '':'' \<in> set hg_node then second_field hg_node else hg_node) of
        Inl e \<Rightarrow> Inl e
      | Inr git_hash \<Rightarrow>
          cset_marker_loop self captures
            (py_replace (''<<'' @ marker @ '' '' @ hg_node @ ''>>'') (escaped_marker git_hash) content))"

definition convert_cset_marker :: "'d bb_to_gh \<Rightarrow> string \<Rightarrow> py_error + string" where
  "convert_cset_marker self content =
     cset_marker_loop self (findall cset_marker_pattern content) content"

subsection \<open>\<^verbatim>\<open>convert_bb_cset_link\<close>\<close>

text \<open>\<^verbatim>\<open>base_url + r'([0-9a-f]+)(/?)'\<close> with \<^verbatim>\<open>base_url = self.bb_url + '/commits/'\<close>.\<close>

definition cset_link_pattern :: "string \<Rightarrow> (string \<times> string) pattern" where
  "cset_link_pattern base_url prev s =
     (case re_base base_url s of
        None \<Rightarrow> None
      | Some s1 \<Rightarrow>
          (let hg_node = takeWhile is_hex s1;
               rest_of_url = (if prefix ''/'' (dropWhile is_hex s1) then ''/'' else [])
           in if hg_node = [] then None
              else Some ((hg_node, rest_of_url),
                         length base_url + length hg_node + length rest_of_url)))"

fun cset_link_loop :: "'d bb_to_gh \<Rightarrow> string \<Rightarrow> (string \<times> string) list \<Rightarrow> string
    \<Rightarrow> py_error + string" where
  "cset_link_loop self base_url [] content = Inr content"
| "cset_link_loop self base_url ((hg_node, rest_of_url) # url_pairs) content =
     (case hgnode_to_githash self hg_node of
        Inl e \<Rightarrow> Inl e
      | Inr git_hash \<Rightarrow>
          cset_link_loop self base_url url_pairs
            (py_replace (base_url @ hg_node @ rest_of_url) ('' '' @ show_hash git_hash @ '' '')
               content))"

definition convert_bb_cset_link :: "'d bb_to_gh \<Rightarrow> string \<Rightarrow> py_error + string" where
  "convert_bb_cset_link self content =
     cset_link_loop self (bb_url self @ ''/commits/'')
       (findall (cset_link_pattern (bb_url self @ ''/commits/'')) content) content"

subsection \<open>\<^verbatim>\<open>convert_bb_pr_marker\<close>\<close>

text \<open>
  \<^verbatim>\<open>\b(pull request #(\d+))\b\<close>. The phrase starts with a word character, so the first
  \<^verbatim>\<open>\b\<close> asks for no word character before it. \<^verbatim>\<open>\d+\<close> takes all digits; the last
  \<^verbatim>\<open>\b\<close> then asks for no word character after them, and fewer digits would leave a
  digit there.
\<close>

definition pr_marker_pattern :: "(string \<times> string) pattern" where
  "pr_marker_pattern prev s =
     (if word_before prev then None
      else
        (case literal ''pull request #'' s of
           None \<Rightarrow> None
         | Some s1 \<Rightarrow>
             (let pr_number = takeWhile is_digit s1 in
              if pr_number = [] \<or> word_ahead (dropWhile is_digit s1) then None
              else Some ((''pull request #'' @ pr_number, pr_number), 14 + length pr_number))))"

fun pr_marker_loop :: "'d bb_to_gh \<Rightarrow> (string \<times> string) list \<Rightarrow> string \<Rightarrow> string" where
  "pr_marker_loop self [] content = content"
| "pr_marker_loop self ((replacer, pr_number) # captures) content =
     pr_marker_loop self captures
       (py_replace replacer (bb_url self @ ''/pull-request/'' @ pr_number) content)"

definition convert_bb_pr_marker :: "'d bb_to_gh \<Rightarrow> string \<Rightarrow> string" where
  "convert_bb_pr_marker self content =
     pr_marker_loop self (findall pr_marker_pattern content) content"

subsection \<open>\<^verbatim>\<open>convert_bb_issue_link\<close>\<close>

text \<open>
  \<^verbatim>\<open>base_url + r'(\d+)(/[\w\d.,_-]*)?'\<close> with \<^verbatim>\<open>base_url = self.bb_url + '/issue/'\<close>. A
  group that takes no part in the match is the empty string in the result of
  \<^verbatim>\<open>re.findall\<close>.
\<close>

definition issue_link_pattern :: "string \<Rightarrow> (string \<times> string) pattern" where
  "issue_link_pattern base_url prev s =
     (case re_base base_url s of
        None \<Rightarrow> None
      | Some s1 \<Rightarrow>
          (let issue_id = takeWhile is_digit s1;
               rest_of_url = (case dropWhile is_digit s1 of
                                [] \<Rightarrow> []
                              | c # cs \<Rightarrow> if c = CHR ''/'' then c # takeWhile is_slug cs else [])
           in if issue_id = [] then None
              else Some ((issue_id, rest_of_url),
                         length base_url + length issue_id + length rest_of_url)))"

fun issue_link_loop :: "string \<Rightarrow> (string \<times> string) list \<Rightarrow> string \<Rightarrow> string" where
  "issue_link_loop base_url [] content = content"
| "issue_link_loop base_url ((issue_id, rest_of_url) # issue_pairs) content =
     issue_link_loop base_url issue_pairs
       (py_replace (base_url @ issue_id @ rest_of_url) (''#'' @ issue_id) content)"

definition convert_bb_issue_link :: "'d bb_to_gh \<Rightarrow> string \<Rightarrow> string" where
  "convert_bb_issue_link self content =
     issue_link_loop (bb_url self @ ''/issue/'')
       (findall (issue_link_pattern (bb_url self @ ''/issue/'')) content) content"

subsection \<open>\<^verbatim>\<open>convert_bb_src_link\<close>\<close>

text \<open>
  \<^verbatim>\<open>base_url + r'([^/]+)(/[\w\d/?=#.,_-]*)?'\<close> with \<^verbatim>\<open>base_url = self.bb_url + '/src/'\<close>.
\<close>

definition src_link_pattern :: "string \<Rightarrow> (string \<times> string) pattern" where
  "src_link_pattern base_url prev s =
     (case re_base base_url s of
        None \<Rightarrow> None
      | Some s1 \<Rightarrow>
          (let hg_node = takeWhile (\<lambda>c. c \<noteq> CHR ''/'') s1;
               rest_of_url = (case dropWhile (\<lambda>c. c \<noteq> CHR ''/'') s1 of
                                [] \<Rightarrow> []
                              | c # cs \<Rightarrow> c # takeWhile is_src_rest cs)
           in if hg_node = [] then None
              else Some ((hg_node, rest_of_url),
                         length base_url + length hg_node + length rest_of_url)))"

text \<open>
  \<^verbatim>\<open>urlparse.urlparse(rest_of_url)\<close> of the standard library, for a text without colon,
  semicolon and square brackets (the pattern admits none): a leading \<^verbatim>\<open>//\<close> opens a
  network location that ends before the next \<^verbatim>\<open>/\<close>, \<^verbatim>\<open>?\<close> or \<^verbatim>\<open>#\<close>; the fragment
  follows the first \<^verbatim>\<open>#\<close> of what is left, the query the first \<^verbatim>\<open>?\<close> before it.
  The result is the pair of \<^verbatim>\<open>path\<close> and \<^verbatim>\<open>fragment\<close>.
\<close>

definition urlparse_path_fragment :: "string \<Rightarrow> string \<times> string" where
  "urlparse_path_fragment url =
     (let url1 = (if take 2 url = ''//''
                  then dropWhile (\<lambda>c. c \<noteq> CHR ''/'' \<and> c \<noteq> CHR ''?'' \<and> c \<noteq> CHR ''#'') (drop 2 url)
                  else url);
          url2 = takeWhile (\<lambda>c. c \<noteq> CHR ''#'') url1;
          fragment = drop 1 (dropWhile (\<lambda>c. c \<noteq> CHR ''#'') url1)
      in (takeWhile (\<lambda>c. c \<noteq> CHR ''?'') url2, fragment))"

text \<open>
  \<^verbatim>\<open>re.match('cl-\d+', fragment)\<close> and the group of \<^verbatim>\<open>re.match('cl-(\d+)', fragment)\<close>:
  the anchor \<^verbatim>\<open>#L\<close> and the digits, or the empty string.
\<close>

definition line_anchor :: "string \<Rightarrow> string" where
  "line_anchor fragment =
     (case literal ''cl-'' fragment of
        None \<Rightarrow> []
      | Some s1 \<Rightarrow> if takeWhile is_digit s1 = [] then [] else ''#L'' @ takeWhile is_digit s1)"

fun src_link_loop :: "'d bb_to_gh \<Rightarrow> string \<Rightarrow> (string \<times> string) list \<Rightarrow> string
    \<Rightarrow> py_error + string" where
  "src_link_loop self base_url [] content = Inr content"
| "src_link_loop self base_url ((hg_node, rest_of_url) # url_pairs) content =
     (case hgnode_to_githash self hg_node of
        Inl e \<Rightarrow> Inl e
      | Inr git_hash \<Rightarrow>
          src_link_loop self base_url url_pairs
            (py_replace (base_url @ hg_node @ rest_of_url)
               (gh_url self @ ''/blob/'' @ (case git_hash of None \<Rightarrow> ''master'' | Some g \<Rightarrow> g) @
                fst (urlparse_path_fragment rest_of_url) @
                line_anchor (snd (urlparse_path_fragment rest_of_url)))
               content))"

definition convert_bb_src_link :: "'d bb_to_gh \<Rightarrow> string \<Rightarrow> py_error + string" where
  "convert_bb_src_link self content =
     src_link_loop self (bb_url self @ ''/src/'')
       (findall (src_link_pattern (bb_url self @ ''/src/'')) content) content"

subsection \<open>\<^verbatim>\<open>get_bb_username\<close> under \<^verbatim>\<open>memoize\<close>\<close>

text \<open>
  What \<^verbatim>\<open>get_bb_username\<close> returns: \<^verbatim>\<open>False\<close> for a skipped name, \<^verbatim>\<open>None\<close> for a
  name the service does not know, or the display name.
\<close>

datatype py_name = PyFalse | PyNone | PyStr string

text \<open>\<^verbatim>\<open>'%s' % name\<close>.\<close>

fun show_name :: "py_name \<Rightarrow> string" where
  "show_name PyFalse = ''False''"
| "show_name PyNone = ''None''"
| "show_name (PyStr n) = n"

definition skipped_names :: "string list" where
  "skipped_names =
     [''name'', ''names'', ''class'', ''import'', ''property'', ''ubuntu'', ''wrap'',
      ''github'', ''for'', ''enumerate'', ''item'', ''itemize'', ''type'', ''title'',
      ''empty'', ''replace'', ''gmail'', ''id'', ''href'', ''app'', ''echo'']"

text \<open>
  The state of a run: the dictionary \<^verbatim>\<open>cache\<close> of the \<^verbatim>\<open>memoize\<close> object that
  decorates \<^verbatim>\<open>get_bb_username\<close>, and the user names for which \<^verbatim>\<open>requests.get\<close> has been
  called, in the order of the calls. The key that \<^verbatim>\<open>make_key\<close> builds from the one
  positional argument is the user name itself.
\<close>

record memo =
  cache :: "(string \<times> py_name) list"
  calls :: "string list"

definition empty_memo :: memo where
  "empty_memo = \<lparr> cache = [], calls = [] \<rparr>"

text \<open>
  The undecorated function. \<open>lookup user\<close> is the display name in the answer of the
  service when its status is 200, \<open>None\<close> for any other status.
\<close>

definition get_bb_username_raw :: "(string \<Rightarrow> string option) \<Rightarrow> string \<Rightarrow> string list
    \<Rightarrow> py_name \<times> string list" where
  "get_bb_username_raw lookup user log =
     (if user \<in> set skipped_names then (PyFalse, log)
      else (case lookup user of
              Some display_name \<Rightarrow> (PyStr display_name, log @ [user])
            | None \<Rightarrow> (PyNone, log @ [user])))"

text \<open>\<^verbatim>\<open>memoize.__call__.wrap\<close>.\<close>

definition get_bb_username :: "(string \<Rightarrow> string option) \<Rightarrow> string \<Rightarrow> memo \<Rightarrow> py_name \<times> memo" where
  "get_bb_username lookup user st =
     (case map_of (cache st) user of
        Some res \<Rightarrow> (res, st)
      | None \<Rightarrow>
          (let (res, log) = get_bb_username_raw lookup user (calls st)
           in (res, \<lparr> cache = AList.update user res (cache st), calls = log \<rparr>)))"

subsection \<open>\<^verbatim>\<open>convert_bb_user_link\<close>\<close>

text \<open>
  The end of \<^verbatim>\<open>[a-zA-Z0-9_-]+\b\<close>. \<open>run\<close> is the longest run of name characters after
  the first letter and \<open>rest\<close> the text behind it. The greedy \<^verbatim>\<open>+\<close> tries the whole run
  first and gives back one character at a time, down to one, until \<^verbatim>\<open>\b\<close> holds
  between the last character kept and the text that follows.
\<close>

fun name_end :: "nat \<Rightarrow> string \<Rightarrow> string \<Rightarrow> string option" where
  "name_end 0 run rest = None"
| "name_end (Suc k) run rest =
     (if is_word (last (take (Suc k) run)) \<noteq> word_ahead (drop (Suc k) run @ rest)
      then Some (take (Suc k) run)
      else name_end k run rest)"

text \<open>\<^verbatim>\<open>@([a-zA-Z][a-zA-Z0-9_-]+)\b\<close> at the start of \<open>s\<close>: the user name.\<close>

definition at_name :: "string \<Rightarrow> string option" where
  "at_name s =
     (case s of
        [] \<Rightarrow> None
      | a # s1 \<Rightarrow>
          if a \<noteq> CHR ''@'' then None
          else (case s1 of
                  [] \<Rightarrow> None
                | c # s2 \<Rightarrow>
                    if \<not> is_alpha c then None
                    else map_option (Cons c)
                           (name_end (length (takeWhile is_user_char s2))
                              (takeWhile is_user_char s2) (dropWhile is_user_char s2))))"

text \<open>
  \<^verbatim>\<open>(^|[^a-zA-Z0-9])@([a-zA-Z][a-zA-Z0-9_-]+)\b\<close>. The first alternative of group 1 is
  the start of the text (there is no MULTILINE flag); when the match cannot be completed
  with it, the second alternative takes one character that is no letter and no digit.
\<close>

definition user_pattern :: "(string \<times> string) pattern" where
  "user_pattern prev s =
     (case (if prev = None then at_name s else None) of
        Some user \<Rightarrow> Some (([], user), 1 + length user)
      | None \<Rightarrow>
          (case s of
             [] \<Rightarrow> None
           | c # s1 \<Rightarrow>
               if is_alnum c then None
               else (case at_name s1 of
                       None \<Rightarrow> None
                     | Some user \<Rightarrow> Some (([c], user), 2 + length user))))"

text \<open>
  The replacement is the template \<^verbatim>\<open>r'\1[%s](%s)' % (name, base_url + user)\<close>. It
  holds a backslash, so \<^verbatim>\<open>re.sub\<close> hands it to the template compiler of the library
  (\<^verbatim>\<open>re._compile_repl\<close>, that is \<^verbatim>\<open>sre_parse.parse_template\<close>) before it searches the
  text. The compiler reads every backslash of the template as an escape or as a
  reference to a group: it can raise while it compiles, and the compiled replacement can
  raise when it expands a match (a reference to a group that the pattern does not have).
\<close>

definition user_template :: "py_name \<Rightarrow> string \<Rightarrow> string" where
  "user_template name user =
     [CHR 0x5C, CHR ''1''] @ ''['' @ show_name name @ '']('' @ ''https://bitbucket.org/'' @ user @ '')''"

text \<open>
  A compiled replacement maps the groups of a match to a text or an exception. When the
  only backslash of the template is the one of the leading \<^verbatim>\<open>\1\<close>, the compiled
  replacement is group 1 followed by the rest of the template as it stands. For every
  other template the compiler of the library is the parameter \<open>compile_repl\<close>.
\<close>

type_synonym repl = "string \<times> string \<Rightarrow> py_error + string"

definition compile_user_template :: "(string \<Rightarrow> py_error + repl) \<Rightarrow> py_name \<Rightarrow> string
    \<Rightarrow> py_error + repl" where
  "compile_user_template compile_repl name user =
     (if CHR 0x5C \<in> set (drop 2 (user_template name user))
      then compile_repl (user_template name user)
      else Inr (\<lambda>g. Inr (fst g @ drop 2 (user_template name user))))"

text \<open>
  The loop of \<^verbatim>\<open>convert_bb_user_link\<close>. The user name is looked up first, so the cache
  holds it when \<^verbatim>\<open>re.sub\<close> raises.
\<close>

fun user_link_loop :: "(string \<Rightarrow> py_error + repl) \<Rightarrow> (string \<Rightarrow> string option)
    \<Rightarrow> (string \<times> string) list \<Rightarrow> string \<Rightarrow> memo \<Rightarrow> (py_error + string) \<times> memo" where
  "user_link_loop compile_repl lookup [] content st = (Inr content, st)"
| "user_link_loop compile_repl lookup ((pre, user) # found) content st =
     (case get_bb_username lookup user st of
        (name, st') \<Rightarrow>
          if name \<noteq> PyNone
          then (case compile_user_template compile_repl name user of
                  Inl e \<Rightarrow> (Inl e, st')
                | Inr r \<Rightarrow>
                    (case re_sub user_pattern r content of
                       Inl e \<Rightarrow> (Inl e, st')
                     | Inr content' \<Rightarrow> user_link_loop compile_repl lookup found content' st'))
          else user_link_loop compile_repl lookup found content st')"

definition convert_bb_user_link :: "(string \<Rightarrow> py_error + repl) \<Rightarrow> (string \<Rightarrow> string option)
    \<Rightarrow> string \<Rightarrow> memo \<Rightarrow> (py_error + string) \<times> memo" where
  "convert_bb_user_link compile_repl lookup content st =
     user_link_loop compile_repl lookup (findall user_pattern content) content st"

subsection \<open>\<^verbatim>\<open>convert_all\<close> and \<^verbatim>\<open>convert_issue_content\<close>\<close>

text \<open>
  A call returns the text or the exception, and the state of the cache in either case.
  The three rules that resolve a node and the user rule can raise, and only the user rule
  touches the cache.
\<close>

definition convert_all :: "'d bb_to_gh \<Rightarrow> (string \<Rightarrow> py_error + repl) \<Rightarrow> (string \<Rightarrow> string option)
    \<Rightarrow> string \<Rightarrow> memo \<Rightarrow> (py_error + string) \<times> memo" where
  "convert_all self compile_repl lookup content st =
     (case convert_cset_marker self (normalize_bb_url self content) of
        Inl e \<Rightarrow> (Inl e, st)
      | Inr c2 \<Rightarrow>
          (case convert_bb_cset_link self c2 of
             Inl e \<Rightarrow> (Inl e, st)
           | Inr c3 \<Rightarrow>
               (case convert_bb_src_link self (convert_bb_issue_link self c3) of
                  Inl e \<Rightarrow> (Inl e, st)
                | Inr c5 \<Rightarrow>
                    (case convert_bb_user_link compile_repl lookup c5 st of
                       (Inl e, st') \<Rightarrow> (Inl e, st')
                     | (Inr c6, st') \<Rightarrow> (Inr (convert_bb_pr_marker self c6), st')))))"

text \<open>
  \<^verbatim>\<open>convert_issue_content\<close> assigns in place: the content first, then the body of each
  comment in order. An exception leaves what has been assigned so far and ends the call;
  the result is the entry as it stands then, the exception if there was one, and the
  cache.
\<close>

fun convert_comments :: "'d bb_to_gh \<Rightarrow> (string \<Rightarrow> py_error + repl) \<Rightarrow> (string \<Rightarrow> string option)
    \<Rightarrow> 'v comment list \<Rightarrow> memo
    \<Rightarrow> ('v comment list \<times> py_error option) \<times> memo" where
  "convert_comments self compile_repl lookup [] st = (([], None), st)"
| "convert_comments self compile_repl lookup (c # cs) st =
     (case convert_all self compile_repl lookup (body c) st of
        (Inl e, st1) \<Rightarrow> ((c # cs, Some e), st1)
      | (Inr b, st1) \<Rightarrow>
          (case convert_comments self compile_repl lookup cs st1 of
             ((cs', err), st2) \<Rightarrow> ((c\<lparr> body := b \<rparr> # cs', err), st2)))"

definition convert_issue_content :: "'d bb_to_gh \<Rightarrow> (string \<Rightarrow> py_error + repl)
    \<Rightarrow> (string \<Rightarrow> string option) \<Rightarrow> 'v entry \<Rightarrow> memo
    \<Rightarrow> ('v entry \<times> py_error option) \<times> memo" where
  "convert_issue_content self compile_repl lookup item st =
     (case convert_all self compile_repl lookup (issue_content (issue item)) st of
        (Inl e, st1) \<Rightarrow> ((item, Some e), st1)
      | (Inr c, st1) \<Rightarrow>
          (case convert_comments self compile_repl lookup (comments item) st1 of
             ((cs', err), st2) \<Rightarrow>
               ((item\<lparr> issue := (issue item)\<lparr> issue_content := c \<rparr>, comments := cs' \<rparr>, err),
                st2)))"


subsection \<open>Rules in sequence\<close>

text \<open>
  A rule takes a text and the cache and returns a text or an exception, and the cache;
  the user rule is one as it stands. \<open>pure_rule\<close> and \<open>raising_rule\<close> make rules of
  the functions that do not touch the cache; \<open>chain\<close> applies a list of rules from left
  to right and stops at the first exception.
\<close>

type_synonym rule = "string \<Rightarrow> memo \<Rightarrow> (py_error + string) \<times> memo"








text \<open>A directory service that knows \<^verbatim>\<open>alice\<close> only.\<close>

definition knows_alice :: "string \<Rightarrow> string option" where
  "knows_alice user = (if user = ''alice'' then Some ''Alice'' else None)"




text \<open>A function of the index, applied to the index of the example repository.\<close>

definition with_index :: "(string bb_to_gh \<Rightarrow> 'a) \<Rightarrow> py_error + 'a" where
  "with_index f = (case constructed one_hg one_git of Inl e \<Rightarrow> Inl e | Inr self \<Rightarrow> Inr (f self))"

section \<open>Theorems\<close>

subsection \<open>The sequence filler\<close>

text \<open>
  C3. The filler is claimed to end with identifier \<open>i + 1\<close> at every position \<open>i\<close>. The
  for loop runs once over the indices of the original list and the retry is dead code:
  on the one-element list with identifier 3 it inserts a single tombstone and returns
  the identifiers \<open>[1, 3]\<close>, so position 1 carries 3, not 2.
\<close>

theorem insert_missing_issue_leaves_gap:
  "map_sum id (map ident) (insert_missing_issue now [plain_issue 3 :: 'v entry]) = Inr [1, 3]"
  by (simp add: insert_missing_issue_def plain_issue_def list_insert_def tombstone_def)

text \<open>The three examples of the specification come out as it says.\<close>

lemma insert_missing_issue_examples:
  "map_sum id (map ident) (insert_missing_issue now [plain_issue 1, plain_issue 2, plain_issue 4 :: 'v entry])
     = Inr [1, 2, 3, 4]"
  "map_sum id (map ident) (insert_missing_issue now [plain_issue 1, plain_issue 3, plain_issue 4 :: 'v entry])
     = Inr [1, 2, 3, 4]"
  "insert_missing_issue now [plain_issue 1, plain_issue 2, plain_issue 3 :: 'v entry]
     = Inr [plain_issue 1, plain_issue 2, plain_issue 3]"
  by (simp_all add: insert_missing_issue_def plain_issue_def list_insert_def tombstone_def
      upt_rec[of 0] upt_rec[of 1] upt_rec[of 2])

subsection \<open>Binary search and prefixes\<close>

declare bisect_loop.simps [simp del]

lemma lex_between_prefix:
  fixes p m n :: "'a::linorder list"
  shows "p \<le> m \<Longrightarrow> m \<le> n \<Longrightarrow> prefix p n \<Longrightarrow> prefix p m"
proof (induction p arbitrary: m n)
  case Nil
  then show ?case by simp
next
  case (Cons a p)
  then obtain n' where n: "n = a # n'" and pn: "prefix p n'" by (cases n) auto
  from Cons.prems(1) obtain b m' where m: "m = b # m'" by (cases m) auto
  from Cons.prems(1) m have 1: "a < b \<or> (a = b \<and> p \<le> m')" by auto
  from Cons.prems(2) m n have 2: "b < a \<or> (a = b \<and> m' \<le> n')" by auto
  from 1 2 have "a = b" "p \<le> m'" "m' \<le> n'" by auto
  with Cons.IH[OF _ _ pn] m show ?case by simp
qed

lemma prefix_le: fixes p :: "'a::linorder list" shows "prefix p n \<Longrightarrow> p \<le> n"
proof (induction p arbitrary: n)
  case Nil
  then show ?case by simp
next
  case (Cons a p)
  then show ?case by (cases n) auto
qed

lemma bisect_loop_spec:
  "sorted a \<Longrightarrow> lo \<le> hi \<Longrightarrow> hi \<le> length a \<Longrightarrow>
   (\<forall>i<lo. a ! i < x) \<Longrightarrow> (\<forall>i. hi \<le> i \<and> i < length a \<longrightarrow> x \<le> a ! i) \<Longrightarrow>
   (let r = bisect_loop a x lo hi in r \<le> length a \<and> (\<forall>i<r. a ! i < x) \<and> (\<forall>i. r \<le> i \<and> i < length a \<longrightarrow> x \<le> a ! i))"
proof (induction a x lo hi rule: bisect_loop.induct)
  case (1 a x lo hi)
  show ?case
  proof (cases "lo < hi")
    case False
    have "bisect_loop a x lo hi = lo" using False by (subst bisect_loop.simps) simp
    with 1(3-) False show ?thesis by (simp add: Let_def)
  next
    case True
    let ?mid = "(lo + hi) div 2"
    have mid: "lo \<le> ?mid" "?mid < hi" using True by auto
    show ?thesis
    proof (cases "a ! ?mid < x")
      case lt: True
      have "\<forall>i<?mid + 1. a ! i < x"
      proof (intro allI impI)
        fix i assume "i < ?mid + 1"
        then have "a ! i \<le> a ! ?mid" using 1(3) mid 1(5) by (auto intro!: sorted_nth_mono)
        with lt show "a ! i < x" by simp
      qed
      moreover have "bisect_loop a x lo hi = bisect_loop a x (?mid + 1) hi"
        using True lt by (subst bisect_loop.simps) simp
      ultimately show ?thesis using 1(1)[OF True lt] 1(3-) mid by simp
    next
      case ge: False
      have "\<forall>i. ?mid \<le> i \<and> i < length a \<longrightarrow> x \<le> a ! i"
      proof (intro allI impI)
        fix i assume "?mid \<le> i \<and> i < length a"
        then have "a ! ?mid \<le> a ! i" using 1(3) by (auto intro!: sorted_nth_mono)
        with ge show "x \<le> a ! i" by simp
      qed
      moreover have "bisect_loop a x lo hi = bisect_loop a x lo ?mid"
        using True ge by (subst bisect_loop.simps) simp
      ultimately show ?thesis using 1(2)[OF True ge] 1(3-) mid by simp
    qed
  qed
qed

lemma find_unique_prefix:
  assumes "sorted a" "n \<in> set a" "prefix p n" "\<forall>m\<in>set a. prefix p m \<longrightarrow> m = n"
  shows "bisect_left a p < length a \<and> a ! bisect_left a p = n"
proof -
  let ?r = "bisect_left a p"
  have top: "\<forall>i. length a \<le> i \<and> i < length a \<longrightarrow> p \<le> a ! i" by auto
  have bot: "\<forall>i<(0::nat). a ! i < p" by simp
  from bisect_loop_spec[where lo = 0 and hi = "length a" and a = a and x = p, OF assms(1) _ _ bot top]
  have spec: "?r \<le> length a" "\<forall>i<?r. a ! i < p" "\<forall>i. ?r \<le> i \<and> i < length a \<longrightarrow> p \<le> a ! i"
    by (simp_all add: bisect_left_def Let_def)
  from assms(2) obtain j where j: "j < length a" "a ! j = n" by (auto simp: in_set_conv_nth)
  have "p \<le> n" using assms(3) by (rule prefix_le)
  then have "\<not> j < ?r" using spec(2) j by auto
  then have rj: "?r \<le> j" by simp
  then have r: "?r < length a" using j by simp
  have "p \<le> a ! ?r" using spec(3) r by simp
  moreover have "a ! ?r \<le> n" using sorted_nth_mono[OF assms(1) rj j(1)] j by simp
  ultimately have "prefix p (a ! ?r)" using assms(3) by (rule lex_between_prefix)
  then have "a ! ?r = n" using assms(4) r by simp
  with r show ?thesis by simp
qed

subsection \<open>Invariants of the two loops of the constructor\<close>

lemma grp_setdefault_append:
  "grp (setdefault_append k x d) k' = (if k' = k then insert x (grp d k) else grp d k')"
  by (auto simp: grp_def setdefault_append_def update_conv' split: option.splits)

lemma hg_pass_parse:
  "hg_pass parse ls (s, k) = Inr r \<Longrightarrow> l \<in> set ls \<Longrightarrow> parse (date l) \<noteq> None"
  by (induction ls arbitrary: s k) (auto split: option.splits)

lemma hg_pass_total:
  "list_all (\<lambda>l. parse (date l) \<noteq> None) ls \<Longrightarrow> \<exists>r. hg_pass parse ls (s, k) = Inr r"
  by (induction ls arbitrary: s k) (auto split: option.splits)

lemma hg_pass_h2g:
  "hg_pass parse ls (s, k) = Inr (s', k') \<Longrightarrow>
   map_of (hg_to_git s') n =
     (if n \<in> (\<lambda>l. strip (node l)) ` set ls then Some None else map_of (hg_to_git s) n)"
  by (induction ls arbitrary: s k) (auto split: option.splits simp: update_conv')

lemma hg_pass_dates:
  "hg_pass parse ls (s, k) = Inr (s', k') \<Longrightarrow>
   dom (map_of (hg_dates s')) = dom (map_of (hg_dates s)) \<union> (\<lambda>l. strip (node l)) ` set ls"
  by (induction ls arbitrary: s k) (auto split: option.splits simp: update_conv')

lemma hg_pass_frame:
  "hg_pass parse ls (s, k) = Inr (s', k') \<Longrightarrow>
   bb_url s' = bb_url s \<and> gh_url s' = gh_url s \<and> sorted_nodes s' = sorted_nodes s"
  by (induction ls arbitrary: s k) (auto split: option.splits)

lemma hg_pass_grp:
  "hg_pass parse ls (s, k) = Inr (s', k') \<Longrightarrow>
   grp k' key = grp k key \<union> {strip (node l) | l. l \<in> set ls \<and> match_key parse l = Some key}"
proof (induction ls arbitrary: s k)
  case Nil
  then show ?case by simp
next
  case (Cons l ls)
  from Cons.prems obtain d where d: "parse (date l) = Some d" by (auto split: option.splits)
  with Cons.prems Cons.IH show ?case
    by (auto simp: grp_setdefault_append match_key_def)
qed

lemma map_of_assign_all:
  "map_of (assign_all ns g m) n = (if n \<in> set ns then Some (Some g) else map_of m n)"
  by (induction ns arbitrary: m) (auto simp: update_conv')

lemma git_pass_total:
  "list_all (\<lambda>l. parse (date l) \<noteq> None) gs \<Longrightarrow> \<exists>r. git_pass parse k2h gs m = Inr r"
  by (induction gs arbitrary: m) (auto split: option.splits)

lemma git_pass_map:
  "git_pass parse k2h gs m = Inr m' \<Longrightarrow>
   map_of m' n =
     (case filter (hits parse k2h n) gs of
        [] \<Rightarrow> map_of m n
      | g # gs' \<Rightarrow> Some (Some (strip (node (last (g # gs'))))))"
proof (induction gs arbitrary: m)
  case Nil
  then show ?case by simp
next
  case (Cons g gs)
  from Cons.prems obtain d where d: "parse (date g) = Some d" by (auto split: option.splits)
  show ?case
  proof (cases "map_of k2h (d, strip (desc g))")
    case None
    then have "\<not> hits parse k2h n g" by (simp add: hits_def match_key_def d grp_def)
    with Cons.prems Cons.IH d None show ?thesis by simp
  next
    case (Some ns)
    then have h: "hits parse k2h n g \<longleftrightarrow> n \<in> set ns" by (simp add: hits_def match_key_def d grp_def)
    from Cons.prems d Some have "git_pass parse k2h gs (assign_all ns (strip (node g)) m) = Inr m'" by simp
    from Cons.IH[OF this] h show ?thesis
      by (auto simp: map_of_assign_all split: list.splits)
  qed
qed


lemma init_unfold:
  assumes "bb_to_gh_init parse hg_logs git_logs bb gh = Inr self"
  obtains s1 k1 m where
    "hg_pass parse hg_logs (\<lparr> bb_url = rstrip_slash bb, gh_url = rstrip_slash gh, hg_to_git = [],
        hg_dates = [], hg_revnum_to_hg_node = [], sorted_nodes = [] \<rparr>, []) = Inr (s1, k1)"
    "git_pass parse k1 git_logs (hg_to_git s1) = Inr m"
    "self = s1\<lparr> hg_to_git := m, sorted_nodes := sort (map fst m) \<rparr>"
  using assms by (auto simp: bb_to_gh_init_def split: sum.splits)

lemma init_map:
  assumes "bb_to_gh_init parse hg_logs git_logs bb gh = Inr self"
  shows "map_of (hg_to_git self) n =
     (if n \<in> (\<lambda>l. strip (node l)) ` set hg_logs
      then Some (case filter (\<lambda>g. \<exists>l\<in>set hg_logs. strip (node l) = n \<and> match_key parse g = match_key parse l) git_logs of
                   [] \<Rightarrow> None | g # gs \<Rightarrow> Some (strip (node (last (g # gs)))))
      else None)"
proof -
  from assms obtain s1 k1 m where
    hg: "hg_pass parse hg_logs (\<lparr> bb_url = rstrip_slash bb, gh_url = rstrip_slash gh, hg_to_git = [],
        hg_dates = [], hg_revnum_to_hg_node = [], sorted_nodes = [] \<rparr>, []) = Inr (s1, k1)"
    and git: "git_pass parse k1 git_logs (hg_to_git s1) = Inr m"
    and self: "self = s1\<lparr> hg_to_git := m, sorted_nodes := sort (map fst m) \<rparr>"
    by (rule init_unfold)
  have g1: "grp k1 key = {strip (node l) | l. l \<in> set hg_logs \<and> match_key parse l = Some key}" for key
    using hg_pass_grp[OF hg, of key] by (simp add: grp_def)
  have pk: "l \<in> set hg_logs \<Longrightarrow> match_key parse l \<noteq> None" for l
    using hg_pass_parse[OF hg, of l] by (auto simp: match_key_def)
  have "hits parse k1 n g \<longleftrightarrow> (\<exists>l\<in>set hg_logs. strip (node l) = n \<and> match_key parse g = match_key parse l)" for g
  proof (cases "match_key parse g")
    case None
    have "\<not> hits parse k1 n g" by (simp add: hits_def None)
    moreover have "\<not> (\<exists>l\<in>set hg_logs. strip (node l) = n \<and> match_key parse g = match_key parse l)"
    proof
      assume "\<exists>l\<in>set hg_logs. strip (node l) = n \<and> match_key parse g = match_key parse l"
      then obtain l where "l \<in> set hg_logs" "match_key parse l = None" using None by auto
      with pk show False by blast
    qed
    ultimately show ?thesis by blast
  next
    case (Some key)
    then show ?thesis by (auto simp: hits_def g1)
  qed
  then have f: "filter (hits parse k1 n) git_logs =
      filter (\<lambda>g. \<exists>l\<in>set hg_logs. strip (node l) = n \<and> match_key parse g = match_key parse l) git_logs"
    by (intro filter_cong) auto
  have m0: "map_of (hg_to_git s1) n = (if n \<in> (\<lambda>l. strip (node l)) ` set hg_logs then Some None else None)"
    using hg_pass_h2g[OF hg, of n] by simp
  show ?thesis
  proof (cases "n \<in> (\<lambda>l. strip (node l)) ` set hg_logs")
    case True
    with git_pass_map[OF git, of n] f m0 self show ?thesis by (auto split: list.splits)
  next
    case False
    then have "filter (\<lambda>g. \<exists>l\<in>set hg_logs. strip (node l) = n \<and> match_key parse g = match_key parse l) git_logs = []"
      by (auto simp: filter_empty_conv)
    with git_pass_map[OF git, of n] f m0 self False show ?thesis by simp
  qed
qed

lemma init_index:
  assumes "bb_to_gh_init parse hg_logs git_logs bb gh = Inr self"
  shows "sorted (sorted_nodes self)"
    and "set (sorted_nodes self) = (\<lambda>l. strip (node l)) ` set hg_logs"
    and "dom (map_of (hg_dates self)) = (\<lambda>l. strip (node l)) ` set hg_logs"
proof -
  from assms obtain s1 k1 m where
    hg: "hg_pass parse hg_logs (\<lparr> bb_url = rstrip_slash bb, gh_url = rstrip_slash gh, hg_to_git = [],
        hg_dates = [], hg_revnum_to_hg_node = [], sorted_nodes = [] \<rparr>, []) = Inr (s1, k1)"
    and git: "git_pass parse k1 git_logs (hg_to_git s1) = Inr m"
    and self: "self = s1\<lparr> hg_to_git := m, sorted_nodes := sort (map fst m) \<rparr>"
    by (rule init_unfold)
  show "sorted (sorted_nodes self)" using self by simp
  have "dom (map_of (hg_to_git self)) = (\<lambda>l. strip (node l)) ` set hg_logs"
    using init_map[OF assms] by (auto simp: dom_def split: if_splits)
  then show "set (sorted_nodes self) = (\<lambda>l. strip (node l)) ` set hg_logs"
    using self by (simp add: dom_map_of_conv_image_fst)
  show "dom (map_of (hg_dates self)) = (\<lambda>l. strip (node l)) ` set hg_logs"
    using hg_pass_dates[OF hg] self by simp
qed

lemma init_total:
  assumes "list_all (\<lambda>l. parse (date l) \<noteq> None) hg_logs" "list_all (\<lambda>g. parse (date g) \<noteq> None) git_logs"
  shows "\<exists>self. bb_to_gh_init parse hg_logs git_logs bb gh = Inr self"
proof -
  obtain r where "hg_pass parse hg_logs (\<lparr> bb_url = rstrip_slash bb, gh_url = rstrip_slash gh, hg_to_git = [],
        hg_dates = [], hg_revnum_to_hg_node = [], sorted_nodes = [] \<rparr>, []) = Inr r"
    using hg_pass_total[OF assms(1)] by blast
  moreover obtain m where "git_pass parse (snd r) git_logs (hg_to_git (fst r)) = Inr m"
    using git_pass_total[OF assms(2)] by blast
  ultimately show ?thesis by (cases r) (simp add: bb_to_gh_init_def)
qed

subsection \<open>Resolution\<close>

lemmas run_simps = constructed_def bb_to_gh_init_def setdefault_append_def strip_def is_space_def
  rstrip_slash_def hgnode_to_githash_def find_hg_node_def bisect_left_def lookup_git_def isdigit_def
  is_digit_def is_unicode_digit_def py_int_def mapped_def resolve_in_def match_key_def
  bisect_loop.simps int_of_digits_def

text \<open>
  C1. Resolution is claimed never to raise. In the index built from one commit, the
  reference \<^verbatim>\<open>abc\<close> matches no node and is not numeric: control leaves the
  \<^verbatim>\<open>if full_node is None\<close> block with \<open>full_node\<close> still \<open>None\<close> and
  \<^verbatim>\<open>self.hg_to_git[None]\<close> raises \<^verbatim>\<open>KeyError\<close>. The numeric reference \<^verbatim>\<open>7\<close> is no
  revision number of the log, and \<^verbatim>\<open>self.hg_revnum_to_hg_node[7]\<close> raises \<^verbatim>\<open>KeyError\<close>.
\<close>

theorem hgnode_to_githash_raises_KeyError:
  "resolve_in (constructed one_hg one_git) ''abc'' = Inl KeyError \<and>
   resolve_in (constructed one_hg one_git) ''7'' = Inl KeyError"
  by (simp add: run_simps one_hg_def one_git_def)

text \<open>
  What the constructor leaves in \<^verbatim>\<open>hg_to_git\<close> for an old record whose identifier
  occurs under one match key only.
\<close>

lemma init_last_wins:
  assumes "list_all (\<lambda>l. parse (date l) \<noteq> None) hg_logs"
    and "list_all (\<lambda>g. parse (date g) \<noteq> None) git_logs"
    and "l \<in> set hg_logs"
    and "\<forall>l'\<in>set hg_logs. strip (node l') = strip (node l) \<longrightarrow> match_key parse l' = match_key parse l"
  shows "\<exists>self. bb_to_gh_init parse hg_logs git_logs bb gh = Inr self \<and>
           map_of (hg_to_git self) (strip (node l)) =
             Some (case filter (\<lambda>g. match_key parse g = match_key parse l) git_logs of
                     [] \<Rightarrow> None
                   | g # gs \<Rightarrow> Some (strip (node (last (g # gs)))))"
proof -
  from init_total[OF assms(1,2)] obtain self where
    self: "bb_to_gh_init parse hg_logs git_logs bb gh = Inr self" by blast
  have "filter (\<lambda>g. \<exists>l'\<in>set hg_logs. strip (node l') = strip (node l) \<and> match_key parse g = match_key parse l') git_logs
      = filter (\<lambda>g. match_key parse g = match_key parse l) git_logs"
  proof (rule filter_cong[OF refl])
    fix g
    show "(\<exists>l'\<in>set hg_logs. strip (node l') = strip (node l) \<and> match_key parse g = match_key parse l')
        = (match_key parse g = match_key parse l)"
      using assms(3,4) by metis
  qed
  moreover have "strip (node l) \<in> (\<lambda>l. strip (node l)) ` set hg_logs" using assms(3) by (rule imageI)
  ultimately have "map_of (hg_to_git self) (strip (node l)) =
             Some (case filter (\<lambda>g. match_key parse g = match_key parse l) git_logs of
                     [] \<Rightarrow> None
                   | g # gs \<Rightarrow> Some (strip (node (last (g # gs)))))"
    using init_map[OF self, of "strip (node l)"] by simp
  with self show ?thesis by blast
qed

text \<open>
  C6. The old log lists every commit once, so its identifiers (trimmed, as the
  constructor stores them) are pairwise distinct. When all dates parse, the constructor
  returns, and two old records with the same match key are mapped to the same value:
  the identifier of the last record of the new log with that match key, or \<open>None\<close> when
  the new log has no record with that key.
\<close>

theorem commit_index_last_wins:
  assumes "list_all (\<lambda>l. parse (date l) \<noteq> None) hg_logs"
    and "list_all (\<lambda>g. parse (date g) \<noteq> None) git_logs"
    and "distinct (map (\<lambda>l. strip (node l)) hg_logs)"
    and "l1 \<in> set hg_logs" and "l2 \<in> set hg_logs"
    and "match_key parse l1 = match_key parse l2"
  shows "\<exists>self. bb_to_gh_init parse hg_logs git_logs bb gh = Inr self \<and>
           map_of (hg_to_git self) (strip (node l1)) =
             Some (case filter (\<lambda>g. match_key parse g = match_key parse l1) git_logs of
                     [] \<Rightarrow> None
                   | g # gs \<Rightarrow> Some (strip (node (last (g # gs))))) \<and>
           map_of (hg_to_git self) (strip (node l2)) = map_of (hg_to_git self) (strip (node l1))"
proof -
  have inj: "inj_on (\<lambda>l. strip (node l)) (set hg_logs)"
    using assms(3) by (simp add: distinct_map)
  have same: "\<forall>l'\<in>set hg_logs. strip (node l') = strip (node l) \<longrightarrow> match_key parse l' = match_key parse l"
    if "l \<in> set hg_logs" for l
  proof (intro ballI impI)
    fix l' assume "l' \<in> set hg_logs" "strip (node l') = strip (node l)"
    with inj that have "l' = l" by (auto dest: inj_onD)
    then show "match_key parse l' = match_key parse l" by simp
  qed
  from init_last_wins[OF assms(1,2,4) same[OF assms(4)], of bb gh] obtain self where
    self: "bb_to_gh_init parse hg_logs git_logs bb gh = Inr self"
    and m1: "map_of (hg_to_git self) (strip (node l1)) =
             Some (case filter (\<lambda>g. match_key parse g = match_key parse l1) git_logs of
                     [] \<Rightarrow> None
                   | g # gs \<Rightarrow> Some (strip (node (last (g # gs)))))"
    by blast
  from init_last_wins[OF assms(1,2,5) same[OF assms(5)], of bb gh] self
  have m2: "map_of (hg_to_git self) (strip (node l2)) =
             Some (case filter (\<lambda>g. match_key parse g = match_key parse l2) git_logs of
                     [] \<Rightarrow> None
                   | g # gs \<Rightarrow> Some (strip (node (last (g # gs)))))"
    by auto
  from m1 m2 assms(6) have "map_of (hg_to_git self) (strip (node l2)) = map_of (hg_to_git self) (strip (node l1))"
    by simp
  with self m1 show ?thesis by blast
qed

text \<open>
  Two old records with one match key (after trimming) and two new records with that key:
  both old identifiers end at the later new record.
\<close>

theorem commit_index_last_wins_witness:
  "mapped (constructed twin_hg twin_git) ''aa'' = Inr (Some (Some ''c2'')) \<and>
   mapped (constructed twin_hg twin_git) ''bb'' = mapped (constructed twin_hg twin_git) ''aa''"
proof -
  let ?l1 = "\<lparr> node = ''aa'', date = ''2014-01-01'', desc = ''one'', revnum = 0 \<rparr>"
  let ?l2 = "\<lparr> node = ''bb'', date = ''2014-01-01'', desc = '' one'', revnum = 1 \<rparr>"
  have h1: "list_all (\<lambda>l. Some (date l) \<noteq> None) twin_hg" by (simp add: twin_hg_def)
  have h2: "list_all (\<lambda>g. Some (date g) \<noteq> None) twin_git" by (simp add: twin_git_def)
  have h3: "distinct (map (\<lambda>l. strip (node l)) twin_hg)"
    by (simp add: twin_hg_def strip_def is_space_def)
  have h4: "?l1 \<in> set twin_hg" by (simp add: twin_hg_def)
  have h5: "?l2 \<in> set twin_hg" by (simp add: twin_hg_def)
  have h6: "match_key Some ?l1 = match_key Some ?l2"
    by (simp add: match_key_def strip_def is_space_def)
  from commit_index_last_wins[OF h1 h2 h3 h4 h5 h6,
      of "''https://bitbucket.org/u/r''" "''https://github.com/u/r''"]
  show ?thesis
    by (auto simp add: twin_git_def match_key_def strip_def is_space_def mapped_def constructed_def)
qed

text \<open>
  Resolution of a prefix that belongs to one old identifier only, when neither text is
  the word that the guard at the top of \<^verbatim>\<open>hgnode_to_githash\<close> answers with \<open>None\<close>.
\<close>

lemma unique_prefix_resolution:
  assumes "bb_to_gh_init parse hg_logs git_logs bb gh = Inr self"
    and "l \<in> set hg_logs"
    and "prefix p (strip (node l))"
    and "\<forall>l'\<in>set hg_logs. prefix p (strip (node l')) \<longrightarrow> strip (node l') = strip (node l)"
    and "p \<noteq> ''tip''" and "strip (node l) \<noteq> ''tip''"
  shows "hgnode_to_githash self p = hgnode_to_githash self (strip (node l)) \<and>
         (\<exists>r. hgnode_to_githash self p = Inr r)"
proof -
  let ?n = "strip (node l)"
  note idx = init_index[OF assms(1)]
  have n_in: "?n \<in> set (sorted_nodes self)" using idx(2) assms(2) by auto
  have u1: "\<forall>m\<in>set (sorted_nodes self). prefix p m \<longrightarrow> m = ?n"
    using idx(2) assms(4) by auto
  have u2: "\<forall>m\<in>set (sorted_nodes self). prefix ?n m \<longrightarrow> m = ?n"
    using u1 assms(3) by (meson prefix_order.trans)
  have fp: "find_hg_node self p = Some ?n"
    using find_unique_prefix[OF idx(1) n_in assms(3) u1] assms(3)
    by (simp add: find_hg_node_def Let_def)
  have fn: "find_hg_node self ?n = Some ?n"
    using find_unique_prefix[OF idx(1) n_in _ u2] by (simp add: find_hg_node_def Let_def)
  have "map_of (hg_to_git self) ?n \<noteq> None"
    using init_map[OF assms(1), of ?n] assms(2) by auto
  moreover have "map_of (hg_dates self) ?n \<noteq> None" using idx(3) assms(2) by auto
  ultimately have "\<exists>r. lookup_git self (Some ?n) = Inr r"
    by (auto simp: lookup_git_def split: option.splits)
  with fp fn assms(5,6) show ?thesis by (simp add: hgnode_to_githash_def)
qed

lemma hex_is_not_tip: "list_all is_hex s \<Longrightarrow> s \<noteq> ''tip''"
  by (auto simp: is_hex_def is_digit_def)

text \<open>
  C7. Old identifiers are node ids of the old system, texts of hexadecimal digits. In a
  constructed index, a non-empty prefix of the identifier of an old record that is a
  prefix of no other old identifier resolves to the same result as the full identifier:
  the same new identifier or the same unresolved value, and neither call raises.
\<close>

theorem unique_prefix_resolves_like_full:
  assumes "bb_to_gh_init parse hg_logs git_logs bb gh = Inr self"
    and "l \<in> set hg_logs"
    and "list_all is_hex (strip (node l))"
    and "p \<noteq> []"
    and "prefix p (strip (node l))"
    and "\<forall>l'\<in>set hg_logs. prefix p (strip (node l')) \<longrightarrow> strip (node l') = strip (node l)"
  shows "hgnode_to_githash self p = hgnode_to_githash self (strip (node l)) \<and>
         (\<exists>r. hgnode_to_githash self p = Inr r)"
proof -
  from assms(5) obtain t where "strip (node l) = p @ t" by (auto simp: prefix_def)
  with assms(3) have "list_all is_hex p" by simp
  then have "p \<noteq> ''tip''" by (rule hex_is_not_tip)
  moreover have "strip (node l) \<noteq> ''tip''" using assms(3) by (rule hex_is_not_tip)
  ultimately show ?thesis
    using unique_prefix_resolution[OF assms(1,2,5,6)] by blast
qed

text \<open>
  The identifier of the example of the specification in an index with a second
  identifier that shares its first two digits: \<^verbatim>\<open>0f1\<close> is a prefix of the first only.
\<close>

theorem unique_prefix_resolves_like_full_witness:
  "resolve_in (constructed two_hg two_git) ''0f1''
     = resolve_in (constructed two_hg two_git) ''0f18c81b53fc'' \<and>
   resolve_in (constructed two_hg two_git) ''0f1'' = Inr (Some ''20fa9c09b23e'') \<and>
   resolve_in (constructed two_hg two_git) ''0f2'' = Inr (Some ''77aa01bb02cc'')"
proof -
  let ?l = "\<lparr> node = ''0f18c81b53fc'', date = ''2014-01-01'', desc = ''fix'', revnum = 0 \<rparr>"
  obtain self where s: "bb_to_gh_init Some two_hg two_git ''https://bitbucket.org/u/r''
      ''https://github.com/u/r'' = Inr (self :: string bb_to_gh)"
    by (simp add: run_simps two_hg_def two_git_def)
  have n: "strip (node ?l) = ''0f18c81b53fc''" by (simp add: strip_def is_space_def)
  have h1: "?l \<in> set two_hg" by (simp add: two_hg_def)
  have h2: "list_all is_hex (strip (node ?l))" unfolding n by (simp add: is_hex_def is_digit_def)
  have h3: "''0f1'' \<noteq> []" by simp
  have h4: "prefix ''0f1'' (strip (node ?l))" unfolding n by simp
  have h5: "\<forall>l'\<in>set two_hg. prefix ''0f1'' (strip (node l')) \<longrightarrow> strip (node l') = strip (node ?l)"
    by (simp add: two_hg_def strip_def is_space_def)
  from unique_prefix_resolves_like_full[OF s h1 h2 h3 h4 h5]
  have "hgnode_to_githash self ''0f1'' = hgnode_to_githash self ''0f18c81b53fc''"
    unfolding n by simp
  moreover have "resolve_in (constructed two_hg two_git) ''0f1'' = Inr (Some ''20fa9c09b23e'')"
    by (simp add: run_simps two_hg_def two_git_def)
  moreover have "resolve_in (constructed two_hg two_git) ''0f2'' = Inr (Some ''77aa01bb02cc'')"
    by (simp add: run_simps two_hg_def two_git_def)
  ultimately show ?thesis using s by (simp add: resolve_in_def constructed_def)
qed

subsection \<open>The order of the rules\<close>



subsection \<open>User mentions\<close>

text \<open>
  C4. A mention of a name the service does not know is claimed to stay as it is, and a
  found name to replace its own mentions only. \<^verbatim>\<open>re.sub\<close> is called with the pattern
  of all mentions, not with the mention of \<open>user\<close>: once \<^verbatim>\<open>alice\<close> is found, every
  mention in the text becomes the link of \<^verbatim>\<open>alice\<close>, also that of \<^verbatim>\<open>bob\<close>, for whom
  the service is asked and answers not found.
\<close>

theorem user_link_replaces_every_mention:
  "convert_bb_user_link compile_repl knows_alice ''@alice @bob'' empty_memo =
     (Inr ''[Alice](https://bitbucket.org/alice) [Alice](https://bitbucket.org/alice)'',
      \<lparr> cache = [(''alice'', PyStr ''Alice''), (''bob'', PyNone)],
        calls = [''alice'', ''bob''] \<rparr>)"
  by code_simp

text \<open>
  C5. A mention of a skipped name is claimed to stay as it is. For a skipped name
  \<^verbatim>\<open>get_bb_username\<close> returns \<^verbatim>\<open>False\<close>, the caller tests \<^verbatim>\<open>name is not None\<close>, and
  the mention becomes a link with the text \<^verbatim>\<open>False\<close>. The service is not asked.
\<close>

theorem skipped_name_is_rewritten:
  "convert_bb_user_link compile_repl knows_alice ''@class'' empty_memo =
     (Inr ''[False](https://bitbucket.org/class)'',
      \<lparr> cache = [(''class'', PyFalse)], calls = [] \<rparr>)"
  by code_simp

subsection \<open>The cache of user names\<close>











subsection \<open>Runs of the user rule that do not raise\<close>















subsection \<open>The frame of \<^verbatim>\<open>convert_issue_content\<close>\<close>

lemma convert_comments_frame:
  "list_all2 (\<lambda>c c'. c' = c\<lparr> body := body c' \<rparr>) cs (fst (fst (convert_comments self compile_repl lookup cs st)))"
proof (induction cs arbitrary: st)
  case Nil
  then show ?case by simp
next
  case (Cons c cs)
  show ?case
  proof (cases "convert_all self compile_repl lookup (body c) st")
    case (Pair r st1)
    show ?thesis
    proof (cases r)
      case (Inl e)
      with Pair show ?thesis by (simp add: list_all2_conv_all_nth)
    next
      case (Inr b)
      obtain cs' err st2 where r: "convert_comments self compile_repl lookup cs st1 = ((cs', err), st2)"
        by (cases "convert_comments self compile_repl lookup cs st1") auto
      with Pair Inr Cons.IH[of st1] show ?thesis by simp
    qed
  qed
qed

text \<open>
  C10. Whatever \<^verbatim>\<open>convert_issue_content\<close> does to an entry, with or without an
  exception on the way: the identifier is the same, the inner issue differs in its
  content at most, and the comments are as many as before, in the same order, each
  differing from the original one in its body at most.
\<close>

theorem convert_issue_content_frame:
  "ident (fst (fst (convert_issue_content self compile_repl lookup item st))) = ident item \<and>
   issue (fst (fst (convert_issue_content self compile_repl lookup item st))) =
     (issue item)\<lparr> issue_content :=
        issue_content (issue (fst (fst (convert_issue_content self compile_repl lookup item st)))) \<rparr> \<and>
   list_all2 (\<lambda>c c'. c' = c\<lparr> body := body c' \<rparr>) (comments item)
     (comments (fst (fst (convert_issue_content self compile_repl lookup item st))))"
proof (cases "convert_all self compile_repl lookup (issue_content (issue item)) st")
  case (Pair r st1)
  show ?thesis
  proof (cases r)
    case (Inl e)
    with Pair show ?thesis by (simp add: convert_issue_content_def list_all2_conv_all_nth)
  next
    case (Inr c)
    obtain cs' err st2 where r: "convert_comments self compile_repl lookup (comments item) st1 = ((cs', err), st2)"
      by (cases "convert_comments self compile_repl lookup (comments item) st1") auto
    with Pair Inr convert_comments_frame[of "comments item" self compile_repl lookup st1] show ?thesis
      by (simp add: convert_issue_content_def)
  qed
qed


subsection \<open>Applying a rule twice\<close>

text \<open>
  C9. The three rules are claimed to be idempotent. The issue rule is not. In the text
  below the slug of the second link runs into the scheme of the third link, so the scan
  takes \<^verbatim>\<open>/https\<close> as the slug and never sees the third link. The first pair rewrites
  both occurrences of the link to issue 1; the string of the second pair is gone by
  then, and the third link stays in the result. A second application finds it and
  rewrites it.
\<close>

theorem issue_link_second_pass_differs:
  "with_index (\<lambda>self. convert_bb_issue_link self
      (''https://bitbucket.org/u/r/issue/1 https://bitbucket.org/u/r/issue/1/'' @
       ''https://bitbucket.org/u/r/issue/2''))
     = Inr ''#1 #1/https://bitbucket.org/u/r/issue/2'' \<and>
   with_index (\<lambda>self. convert_bb_issue_link self ''#1 #1/https://bitbucket.org/u/r/issue/2'')
     = Inr ''#1 #1/#2''"
  by code_simp

end
